theory Spec2Isabelle
  imports Complex_Main "HOL-Library.Word" "HOL-Library.Signed_Division"
    "HOL-Library.Code_Target_Numeral"
begin

section \<open>JavaScript strings\<close>

text \<open>
  A JavaScript string is a sequence of 16-bit code units. String literals of the source
  are ASCII, written here with \<open>str\<close>.
\<close>

type_synonym jschar = "16 word"
type_synonym jsstring = "jschar list"

definition ch :: "char \<Rightarrow> jschar" where
  "ch c = of_char c"

definition str :: "string \<Rightarrow> jsstring" where
  "str = map ch"

text \<open>
  \<open>String.prototype.trim\<close> removes, at both ends, the code units that are WhiteSpace
  or LineTerminator in ECMAScript: TAB, LF, VT, FF, CR, SP, NBSP, U+1680, U+2000 to U+200A,
  U+2028, U+2029, U+202F, U+205F, U+3000 and U+FEFF.
\<close>

definition isWhiteSpace :: "jschar \<Rightarrow> bool" where
  "isWhiteSpace c \<longleftrightarrow>
     c \<in> set [0x0009, 0x000A, 0x000B, 0x000C, 0x000D, 0x0020, 0x00A0, 0x1680,
              0x2028, 0x2029, 0x202F, 0x205F, 0x3000, 0xFEFF]
     \<or> (0x2000 \<le> c \<and> c \<le> 0x200A)"

definition trim :: "jsstring \<Rightarrow> jsstring" where
  "trim s = rev (dropWhile isWhiteSpace (rev (dropWhile isWhiteSpace s)))"

section \<open>Regular expressions\<close>

text \<open>
  The fragment of ECMAScript regular expressions the source uses, without flags:
  a literal character, a character class given by inclusive ranges of code units
  (\<open>\d\<close> is the class \<open>[0-9]\<close>), the assertions \<open>^\<close> and \<open>$\<close> (start and end of
  the input, since the \<open>m\<close> flag is absent), concatenation, \<open>r{n}\<close> and \<open>r+\<close>.
\<close>

datatype regex =
    Lit jschar
  | Class "(jschar \<times> jschar) list"
  | Bol
  | Eol
  | Cat regex regex
  | Exactly regex nat
  | OneOrMore regex

definition in_class :: "(jschar \<times> jschar) list \<Rightarrow> jschar \<Rightarrow> bool" where
  "in_class rs c = list_ex (\<lambda>(lo, hi). lo \<le> c \<and> c \<le> hi) rs"

text \<open>
  \<open>ends r s ps\<close> lists the positions of \<open>s\<close> at which a match of \<open>r\<close> that starts at one
  of the positions \<open>ps\<close> can end. No node of the fragment moves backwards, so the end
  positions of \<open>r+\<close> are reached within \<open>length s + 1\<close> iterations.
\<close>

primrec ends :: "regex \<Rightarrow> jsstring \<Rightarrow> nat list \<Rightarrow> nat list" where
  "ends (Lit c) s = (\<lambda>ps. map Suc (filter (\<lambda>p. p < length s \<and> s ! p = c) ps))"
| "ends (Class rs) s = (\<lambda>ps. map Suc (filter (\<lambda>p. p < length s \<and> in_class rs (s ! p)) ps))"
| "ends Bol s = filter (\<lambda>p. p = 0)"
| "ends Eol s = filter (\<lambda>p. p = length s)"
| "ends (Cat a b) s = (\<lambda>ps. ends b s (ends a s ps))"
| "ends (Exactly a n) s = (\<lambda>ps. (ends a s ^^ n) ps)"
| "ends (OneOrMore a) s =
     (\<lambda>ps. concat (map (\<lambda>k. (ends a s ^^ Suc k) ps) [0..<Suc (length s)]))"

text \<open>
  \<open>RegExp.prototype.test\<close> of a regular expression without the \<open>g\<close> and \<open>y\<close> flags:
  a match is tried from every start index, from 0 on.
\<close>

definition regex_test :: "regex \<Rightarrow> jsstring \<Rightarrow> bool" where
  "regex_test r s = list_ex (\<lambda>p. ends r s [p] \<noteq> []) [0..<Suc (length s)]"

section \<open>The validator\<close>

text \<open>
  \<^verbatim>\<open>/^0x[a-fA-F0-9]{40}$/\<close>
\<close>

definition address_regex :: regex where
  "address_regex =
     Cat Bol (Cat (Lit (ch CHR ''0'')) (Cat (Lit (ch CHR ''x''))
       (Cat (Exactly (Class [(ch CHR ''a'', ch CHR ''f''), (ch CHR ''A'', ch CHR ''F''),
                             (ch CHR ''0'', ch CHR ''9'')]) 40) Eol)))"

definition isValidEthAddress :: "jsstring \<Rightarrow> bool" where
  "isValidEthAddress addr = regex_test address_regex (trim addr)"

section \<open>The converter\<close>

datatype js_error = SyntaxError | TypeError | RangeError

text \<open>
  A computation that may throw returns \<open>Inl\<close> of the error; \<open>bind_err\<close> runs the rest
  of the block only when nothing was thrown.
\<close>

definition bind_err :: "'e + 'a \<Rightarrow> ('a \<Rightarrow> 'e + 'b) \<Rightarrow> 'e + 'b" where
  "bind_err m f = (case m of Inl e \<Rightarrow> Inl e | Inr v \<Rightarrow> f v)"

text \<open>
  \<^verbatim>\<open>/^\d+$/\<close>
\<close>

definition wei_regex :: regex where
  "wei_regex = Cat Bol (Cat (OneOrMore (Class [(ch CHR ''0'', ch CHR ''9'')])) Eol)"

subsection \<open>BigInt\<close>

text \<open>
  A BigInt is an unbounded integer. \<open>BigInt(string)\<close> follows StringToBigInt: the string
  is trimmed; the empty string is \<open>0n\<close>; a \<open>0x\<close>, \<open>0o\<close> or \<open>0b\<close> prefix (either case)
  selects the radix; a decimal literal may carry a sign; anything else is a SyntaxError.
\<close>

definition digitValue :: "jschar \<Rightarrow> nat option" where
  "digitValue c =
     (if ch CHR ''0'' \<le> c \<and> c \<le> ch CHR ''9'' then Some (unat c - 48)
      else if ch CHR ''a'' \<le> c \<and> c \<le> ch CHR ''z'' then Some (unat c - 87)
      else if ch CHR ''A'' \<le> c \<and> c \<le> ch CHR ''Z'' then Some (unat c - 55)
      else None)"

fun parseDigits_from :: "nat \<Rightarrow> nat \<Rightarrow> jsstring \<Rightarrow> nat option" where
  "parseDigits_from radix acc [] = Some acc"
| "parseDigits_from radix acc (c # cs) =
     (case digitValue c of
        None \<Rightarrow> None
      | Some d \<Rightarrow> if d < radix then parseDigits_from radix (acc * radix + d) cs else None)"

definition parseDigits :: "nat \<Rightarrow> jsstring \<Rightarrow> nat option" where
  "parseDigits radix ds = (if ds = [] then None else parseDigits_from radix 0 ds)"

definition has_prefix :: "jsstring \<Rightarrow> char \<Rightarrow> char \<Rightarrow> bool" where
  "has_prefix t lower upper \<longleftrightarrow>
     2 \<le> length t \<and> t ! 0 = ch CHR ''0'' \<and> (t ! 1 = ch lower \<or> t ! 1 = ch upper)"

definition StringToBigInt :: "jsstring \<Rightarrow> int option" where
  "StringToBigInt s =
     (let t = trim s in
      if t = [] then Some 0
      else if has_prefix t CHR ''x'' CHR ''X'' then map_option int (parseDigits 16 (drop 2 t))
      else if has_prefix t CHR ''o'' CHR ''O'' then map_option int (parseDigits 8 (drop 2 t))
      else if has_prefix t CHR ''b'' CHR ''B'' then map_option int (parseDigits 2 (drop 2 t))
      else if hd t = ch CHR ''+'' then map_option int (parseDigits 10 (tl t))
      else if hd t = ch CHR ''-'' then map_option (\<lambda>n. - int n) (parseDigits 10 (tl t))
      else map_option int (parseDigits 10 t))"

definition BigInt :: "jsstring \<Rightarrow> js_error + int" where
  "BigInt s = (case StringToBigInt s of None \<Rightarrow> Inl SyntaxError | Some n \<Rightarrow> Inr n)"

text \<open>
  BigInt arithmetic: \<open>**\<close> raises a RangeError on a negative exponent, \<open>/\<close> and \<open>%\<close> on a
  zero divisor; \<open>/\<close> truncates towards zero and \<open>%\<close> takes the sign of the dividend.
\<close>

definition bigint_pow :: "int \<Rightarrow> int \<Rightarrow> js_error + int" where
  "bigint_pow b e = (if e < 0 then Inl RangeError else Inr (b ^ nat e))"

definition bigint_div :: "int \<Rightarrow> int \<Rightarrow> js_error + int" where
  "bigint_div a b = (if b = 0 then Inl RangeError else Inr (a sdiv b))"

definition bigint_rem :: "int \<Rightarrow> int \<Rightarrow> js_error + int" where
  "bigint_rem a b = (if b = 0 then Inl RangeError else Inr (a smod b))"

definition digitChar :: "nat \<Rightarrow> jschar" where
  "digitChar d = of_nat (48 + d)"

fun decimal :: "nat \<Rightarrow> jsstring" where
  "decimal n = (if n < 10 then [digitChar n] else decimal (n div 10) @ [digitChar (n mod 10)])"

declare decimal.simps [simp del]

definition bigint_toString :: "int \<Rightarrow> jsstring" where
  "bigint_toString i = (if i < 0 then ch CHR ''-'' # decimal (nat (- i)) else decimal (nat i))"

text \<open>
  \<open>String.prototype.padStart\<close>: the fill string is repeated and cut to the missing length.
\<close>

definition padStart :: "nat \<Rightarrow> jsstring \<Rightarrow> jsstring \<Rightarrow> jsstring" where
  "padStart maxLength fillString s =
     (if maxLength \<le> length s \<or> fillString = [] then s
      else let fillLen = maxLength - length s
           in take fillLen (concat (replicate fillLen fillString)) @ s)"

definition weiToEtherFixed5 :: "jsstring \<Rightarrow> js_error + jsstring" where
  "weiToEtherFixed5 weiStr =
     (if \<not> regex_test wei_regex weiStr then Inr (str ''0.00000'')
      else
        bind_err (BigInt weiStr) (\<lambda>wei.
        bind_err (bigint_pow 10 18) (\<lambda>base.
        bind_err (bigint_div wei base) (\<lambda>whole.
        bind_err (bigint_rem wei base) (\<lambda>remainder.
        bind_err (bigint_pow 10 5) (\<lambda>p5.
        bind_err (bigint_div (remainder * p5) base) (\<lambda>scaled.
          let decimals = padStart 5 (str ''0'') (bigint_toString scaled)
          in Inr (bigint_toString whole @ str ''.'' @ decimals))))))))"

section \<open>The request handler\<close>

subsection \<open>Values\<close>

text \<open>
  The value \<open>req.json()\<close> resolves to: a JSON value, with a number as the bits of its
  IEEE 754 double and an object as the list of its own properties, read from the front.
  \<open>JUndefined\<close> is what reading an absent property gives.
\<close>

datatype jsvalue =
    JUndefined
  | JNull
  | JBoolean bool
  | JNumber "64 word"
  | JString jsstring
  | JArray "jsvalue list"
  | JObject "(jsstring \<times> jsvalue) list"

definition isNaN :: "64 word \<Rightarrow> bool" where
  "isNaN d \<longleftrightarrow> and d 0x7FF0000000000000 = 0x7FF0000000000000 \<and> and d 0x000FFFFFFFFFFFFF \<noteq> 0"

definition isZero :: "64 word \<Rightarrow> bool" where
  "isZero d \<longleftrightarrow> and d 0x7FFFFFFFFFFFFFFF = 0"

fun ToBoolean :: "jsvalue \<Rightarrow> bool" where
  "ToBoolean JUndefined = False"
| "ToBoolean JNull = False"
| "ToBoolean (JBoolean b) = b"
| "ToBoolean (JNumber d) = (\<not> isZero d \<and> \<not> isNaN d)"
| "ToBoolean (JString s) = (s \<noteq> [])"
| "ToBoolean (JArray xs) = True"
| "ToBoolean (JObject kvs) = True"

fun typeof :: "jsvalue \<Rightarrow> jsstring" where
  "typeof JUndefined = str ''undefined''"
| "typeof JNull = str ''object''"
| "typeof (JBoolean b) = str ''boolean''"
| "typeof (JNumber d) = str ''number''"
| "typeof (JString s) = str ''string''"
| "typeof (JArray xs) = str ''object''"
| "typeof (JObject kvs) = str ''object''"

text \<open>
  Reading the property \<open>address\<close> of a value, as the destructuring
  \<^verbatim>\<open>const { address } = ...\<close> does: a TypeError on \<open>null\<close> and \<open>undefined\<close>, the own
  property of an object, and \<open>undefined\<close> on every other value (no prototype defines
  a property of that name).
\<close>

fun get_property :: "jsvalue \<Rightarrow> jsstring \<Rightarrow> js_error + jsvalue" where
  "get_property JUndefined k = Inl TypeError"
| "get_property JNull k = Inl TypeError"
| "get_property (JObject kvs) k = Inr (case map_of kvs k of None \<Rightarrow> JUndefined | Some v \<Rightarrow> v)"
| "get_property v k = Inr JUndefined"

subsection \<open>The upstream call\<close>

record url =
  href :: jsstring
  searchParams :: "(jsstring \<times> jsstring) list"

fun set_first :: "jsstring \<Rightarrow> jsstring \<Rightarrow> (jsstring \<times> jsstring) list \<Rightarrow> (jsstring \<times> jsstring) list" where
  "set_first name v [] = []"
| "set_first name v ((k, x) # ps) =
     (if k = name then (name, v) # filter (\<lambda>(k', x'). k' \<noteq> name) ps
      else (k, x) # set_first name v ps)"

definition searchParams_set :: "jsstring \<Rightarrow> jsstring \<Rightarrow> url \<Rightarrow> url" where
  "searchParams_set name v u =
     u\<lparr>searchParams :=
         (if name \<in> set (map fst (searchParams u)) then set_first name v (searchParams u)
          else searchParams u @ [(name, v)])\<rparr>"

definition balance_url :: "jsstring \<Rightarrow> jsstring \<Rightarrow> url" where
  "balance_url address apiKey =
     searchParams_set (str ''apikey'') apiKey
       (searchParams_set (str ''tag'') (str ''latest'')
         (searchParams_set (str ''address'') address
           (searchParams_set (str ''action'') (str ''balance'')
             (searchParams_set (str ''module'') (str ''account'')
               \<lparr>href = str ''https://api.etherscan.io/api'', searchParams = []\<rparr>))))"

text \<open>
  The body of the upstream response is read at the type the source declares for it,
  \<^verbatim>\<open>{ status?: string; message?: string; result?: string }\<close>: each field is absent or a
  string. \<open>res_json\<close> is the outcome of \<open>res.json()\<close>, which throws on a body that is
  not JSON.
\<close>

record envelope =
  status :: "jsstring option"
  message :: "jsstring option"
  result :: "jsstring option"

record upstream_response =
  res_status :: nat
  res_json :: "js_error + envelope"

definition ok :: "upstream_response \<Rightarrow> bool" where
  "ok res \<longleftrightarrow> 200 \<le> res_status res \<and> res_status res \<le> 299"

definition truthy :: "jsstring option \<Rightarrow> bool" where
  "truthy v = (case v of None \<Rightarrow> False | Some s \<Rightarrow> s \<noteq> [])"

definition ToString :: "jsstring option \<Rightarrow> jsstring" where
  "ToString v = (case v of None \<Rightarrow> str ''undefined'' | Some s \<Rightarrow> s)"

subsection \<open>The handler\<close>

datatype response_body = ErrorBody jsstring | BalanceBody jsstring

record response =
  resp_body :: response_body
  resp_status :: nat

definition Response_json :: "response_body \<Rightarrow> nat \<Rightarrow> response" where
  "Response_json b st = \<lparr>resp_body = b, resp_status = st\<rparr>"

text \<open>
  The handler's inputs: the outcome of \<open>req.json()\<close>, the value of
  \<open>process.env.ETHERSCAN_API_KEY\<close> and the outcome of \<open>fetch\<close> at each URL (\<open>Inl\<close>
  when the call throws). \<open>POST_try\<close> is the body of the \<open>try\<close> block. Past the
  \<open>typeof\<close> check \<open>address\<close> is a string; on any other value \<open>addr.trim()\<close> would be
  a TypeError.
\<close>

definition POST_try ::
  "(js_error + jsvalue) \<Rightarrow> jsstring option \<Rightarrow> (url \<Rightarrow> js_error + upstream_response)
     \<Rightarrow> js_error + response" where
  "POST_try req_json apiKey fetch =
     bind_err req_json (\<lambda>parsed.
     bind_err (get_property parsed (str ''address'')) (\<lambda>address.
       if \<not> ToBoolean address \<or> typeof address \<noteq> str ''string'' then
         Inr (Response_json (ErrorBody (str ''Missing 'address' in request body.'')) 400)
       else
         (case address of
            JString addr \<Rightarrow>
              if \<not> isValidEthAddress addr then
                Inr (Response_json (ErrorBody (str ''Invalid Ethereum address format.'')) 400)
              else if \<not> truthy apiKey then
                Inr (Response_json
                      (ErrorBody (str ''Server misconfiguration: ETHERSCAN_API_KEY is not set.''))
                      500)
              else
                bind_err (fetch (balance_url addr (ToString apiKey))) (\<lambda>res.
                  if \<not> ok res then
                    Inr (Response_json
                          (ErrorBody (str ''Etherscan request failed with status ''
                                      @ decimal (res_status res) @ str ''.''))
                          502)
                  else
                    bind_err (res_json res) (\<lambda>data.
                      if status data \<noteq> Some (str ''1'') \<or> \<not> truthy (result data) then
                        Inr (Response_json
                              (ErrorBody (if truthy (message data) then ToString (message data)
                                          else str ''Failed to retrieve balance from Etherscan.''))
                              502)
                      else
                        bind_err (weiToEtherFixed5 (ToString (result data))) (\<lambda>balanceEther.
                          Inr (Response_json (BalanceBody balanceEther) 200))))
          | _ \<Rightarrow> Inl TypeError)))"

definition POST ::
  "(js_error + jsvalue) \<Rightarrow> jsstring option \<Rightarrow> (url \<Rightarrow> js_error + upstream_response)
     \<Rightarrow> response" where
  "POST req_json apiKey fetch =
     (case POST_try req_json apiKey fetch of
        Inr r \<Rightarrow> r
      | Inl e \<Rightarrow> Response_json (ErrorBody (str ''Unexpected server error.'')) 500)"

text \<open>Two upstream behaviours for closed examples: the call throws, or it returns \<open>res\<close>.\<close>

definition fetch_throws :: "url \<Rightarrow> js_error + upstream_response" where
  "fetch_throws u = Inl TypeError"

definition fetch_returns :: "upstream_response \<Rightarrow> url \<Rightarrow> js_error + upstream_response" where
  "fetch_returns res u = Inr res"

text \<open>
  The handler's fixed answers, and the sample request and upstream answers of the examples,
  by name.
\<close>

abbreviation missing_address_400 :: response where
  "missing_address_400 \<equiv>
     Response_json (ErrorBody (str ''Missing 'address' in request body.'')) 400"

abbreviation invalid_format_400 :: response where
  "invalid_format_400 \<equiv>
     Response_json (ErrorBody (str ''Invalid Ethereum address format.'')) 400"

abbreviation unexpected_500 :: response where
  "unexpected_500 \<equiv> Response_json (ErrorBody (str ''Unexpected server error.'')) 500"

abbreviation generic_failure :: jsstring where
  "generic_failure \<equiv> str ''Failed to retrieve balance from Etherscan.''"

abbreviation sample_address :: jsstring where
  "sample_address \<equiv> str ''0x52908400098527886E0F7030069857D2E4169EE7''"

abbreviation sample_request :: "js_error + jsvalue" where
  "sample_request \<equiv> Inr (JObject [(str ''address'', JString sample_address)])"

abbreviation upstream_200 :: "envelope \<Rightarrow> upstream_response" where
  "upstream_200 data \<equiv> \<lparr>res_status = 200, res_json = Inr data\<rparr>"

abbreviation envelope_notok :: envelope where
  "envelope_notok \<equiv>
     \<lparr>status = Some (str ''0''), message = Some (str ''NOTOK''),
      result = Some (str ''Invalid API Key'')\<rparr>"

abbreviation envelope_one_ether :: envelope where
  "envelope_one_ether \<equiv>
     \<lparr>status = Some (str ''1''), message = Some (str ''OK''),
      result = Some (str ''1000000000000000000'')\<rparr>"

abbreviation envelope_blank_result :: envelope where
  "envelope_blank_result \<equiv> \<lparr>status = Some (str ''1''), message = None, result = Some []\<rparr>"

abbreviation envelope_blank_result_ok :: envelope where
  "envelope_blank_result_ok \<equiv>
     \<lparr>status = Some (str ''1''), message = Some (str ''OK''), result = Some []\<rparr>"

section \<open>Specification vocabulary\<close>

text \<open>The character sets \<open>[0-9]\<close> and \<open>[0-9a-fA-F]\<close>, listed.\<close>

definition isDecimalDigit :: "jschar \<Rightarrow> bool" where
  "isDecimalDigit c \<longleftrightarrow> c \<in> set (str ''0123456789'')"

definition isHexDigit :: "jschar \<Rightarrow> bool" where
  "isHexDigit c \<longleftrightarrow> c \<in> set (str ''0123456789abcdefABCDEF'')"

text \<open>A string that matches \<^verbatim>\<open>^\d+$\<close>, and the integer it denotes in base ten.\<close>

definition isDigitString :: "jsstring \<Rightarrow> bool" where
  "isDigitString s \<longleftrightarrow> s \<noteq> [] \<and> list_all isDecimalDigit s"

definition digits_value :: "jsstring \<Rightarrow> nat" where
  "digits_value s = foldl (\<lambda>a c. 10 * a + (unat c - 48)) 0 s"

text \<open>A number written in base ten and padded with zeros on the left to \<open>w\<close> digits.\<close>

definition zero_padded :: "nat \<Rightarrow> nat \<Rightarrow> jsstring" where
  "zero_padded w n = replicate (w - length (decimal n)) (ch CHR ''0'') @ decimal n"

text \<open>
  Reading a formatted balance back: the part before the first point, the part after it,
  and the rational number the two denote.
\<close>

definition integer_part :: "jsstring \<Rightarrow> jsstring" where
  "integer_part out = takeWhile (\<lambda>c. c \<noteq> ch CHR ''.'') out"

definition fraction_part :: "jsstring \<Rightarrow> jsstring" where
  "fraction_part out = drop 1 (dropWhile (\<lambda>c. c \<noteq> ch CHR ''.'') out)"

definition decimal_rat :: "jsstring \<Rightarrow> rat" where
  "decimal_rat out =
     of_nat (digits_value (integer_part out))
     + of_nat (digits_value (fraction_part out)) / 10 ^ length (fraction_part out)"

text \<open>
  \<open>run_in rs s p k\<close>: the \<open>k\<close> code units of \<open>s\<close> from position \<open>p\<close> on exist and lie in
  the class \<open>rs\<close>.
\<close>

definition run_in :: "(jschar \<times> jschar) list \<Rightarrow> jsstring \<Rightarrow> nat \<Rightarrow> nat \<Rightarrow> bool" where
  "run_in rs s p k \<longleftrightarrow> (\<forall>i<k. p + i < length s \<and> in_class rs (s ! (p + i)))"

section \<open>Regular expression matching\<close>

lemma set_ends_Lit:
  "set (ends (Lit c) s ps) = {Suc p | p. p \<in> set ps \<and> p < length s \<and> s ! p = c}"
  by auto

lemma set_ends_Class:
  "set (ends (Class rs) s ps) = {Suc p | p. p \<in> set ps \<and> p < length s \<and> in_class rs (s ! p)}"
  by auto

lemma run_in_0: "run_in rs s p 0"
  by (simp add: run_in_def)

lemma run_in_Suc:
  "run_in rs s p (Suc k) \<longleftrightarrow> p < length s \<and> in_class rs (s ! p) \<and> run_in rs s (Suc p) k"
proof
  assume a: "run_in rs s p (Suc k)"
  then have "p + 0 < length s \<and> in_class rs (s ! (p + 0))"
    unfolding run_in_def by blast
  moreover have "run_in rs s (Suc p) k"
    unfolding run_in_def
  proof (intro allI impI)
    fix i assume "i < k"
    then have "p + Suc i < length s \<and> in_class rs (s ! (p + Suc i))"
      using a unfolding run_in_def by (meson Suc_less_eq)
    then show "Suc p + i < length s \<and> in_class rs (s ! (Suc p + i))" by simp
  qed
  ultimately show "p < length s \<and> in_class rs (s ! p) \<and> run_in rs s (Suc p) k" by simp
next
  assume a: "p < length s \<and> in_class rs (s ! p) \<and> run_in rs s (Suc p) k"
  show "run_in rs s p (Suc k)"
    unfolding run_in_def
  proof (intro allI impI)
    fix i assume "i < Suc k"
    show "p + i < length s \<and> in_class rs (s ! (p + i))"
    proof (cases i)
      case 0 then show ?thesis using a by simp
    next
      case (Suc j)
      then have "j < k" using \<open>i < Suc k\<close> by simp
      then have "Suc p + j < length s \<and> in_class rs (s ! (Suc p + j))"
        using a unfolding run_in_def by blast
      then show ?thesis using Suc by simp
    qed
  qed
qed

lemma set_funpow_Class:
  "set ((ends (Class rs) s ^^ k) ps) = {p + k | p. p \<in> set ps \<and> run_in rs s p k}"
proof (induction k arbitrary: ps)
  case 0
  show ?case by (simp add: run_in_0)
next
  case (Suc k)
  have "set ((ends (Class rs) s ^^ Suc k) ps) = set ((ends (Class rs) s ^^ k) (ends (Class rs) s ps))"
    by (simp only: funpow_Suc_right o_apply)
  also have "\<dots> = {q + k | q. q \<in> set (ends (Class rs) s ps) \<and> run_in rs s q k}"
    by (rule Suc.IH)
  also have "\<dots> = {p + Suc k | p. p \<in> set ps \<and> run_in rs s p (Suc k)}"
    unfolding set_ends_Class run_in_Suc by force
  finally show ?case .
qed

lemma regex_test_iff:
  "regex_test r s \<longleftrightarrow> (\<exists>p\<le>length s. ends r s [p] \<noteq> [])"
proof -
  have "regex_test r s \<longleftrightarrow> (\<exists>p\<in>{0..<Suc (length s)}. ends r s [p] \<noteq> [])"
    by (simp only: regex_test_def list_ex_iff set_upt)
  also have "\<dots> \<longleftrightarrow> (\<exists>p\<le>length s. ends r s [p] \<noteq> [])"
    by (metis atLeastLessThan_iff less_Suc_eq_le zero_le)
  finally show ?thesis .
qed

lemma set_ends_Bol: "set (ends Bol s ps) = {p \<in> set ps. p = 0}"
  by simp

lemma set_ends_Eol: "set (ends Eol s ps) = {p \<in> set ps. p = length s}"
  by simp

lemma ends_Cat: "ends (Cat a b) s ps = ends b s (ends a s ps)"
  by simp

lemma ends_Exactly: "ends (Exactly a n) s ps = (ends a s ^^ n) ps"
  by simp

lemma decimal_class_iff: "in_class [(ch CHR ''0'', ch CHR ''9'')] c \<longleftrightarrow> isDecimalDigit c"
proof
  assume "in_class [(ch CHR ''0'', ch CHR ''9'')] c"
  then have "48 \<le> unat c" "unat c \<le> 57"
    by (simp_all add: in_class_def ch_def word_le_nat_alt)
  then have "unat c = 48 \<or> unat c = 49 \<or> unat c = 50 \<or> unat c = 51 \<or> unat c = 52
      \<or> unat c = 53 \<or> unat c = 54 \<or> unat c = 55 \<or> unat c = 56 \<or> unat c = 57"
    by arith
  then have "unat c \<in> {48, 49, 50, 51, 52, 53, 54, 55, 56, 57}" by blast
  then have "word_of_nat (unat c) \<in> (word_of_nat ` {48, 49, 50, 51, 52, 53, 54, 55, 56, 57} :: 16 word set)"
    by (rule imageI)
  then show "isDecimalDigit c" by (simp add: isDecimalDigit_def str_def ch_def)
next
  assume "isDecimalDigit c"
  then show "in_class [(ch CHR ''0'', ch CHR ''9'')] c"
    by (auto simp add: isDecimalDigit_def in_class_def str_def ch_def)
qed

lemma hex_class_iff:
  "in_class [(ch CHR ''a'', ch CHR ''f''), (ch CHR ''A'', ch CHR ''F''),
             (ch CHR ''0'', ch CHR ''9'')] c \<longleftrightarrow> isHexDigit c"
proof
  assume "in_class [(ch CHR ''a'', ch CHR ''f''), (ch CHR ''A'', ch CHR ''F''),
             (ch CHR ''0'', ch CHR ''9'')] c"
  then have "(97 \<le> unat c \<and> unat c \<le> 102) \<or> (65 \<le> unat c \<and> unat c \<le> 70)
       \<or> (48 \<le> unat c \<and> unat c \<le> 57)"
    by (simp add: in_class_def ch_def word_le_nat_alt)
  then have "unat c = 48 \<or> unat c = 49 \<or> unat c = 50 \<or> unat c = 51 \<or> unat c = 52
      \<or> unat c = 53 \<or> unat c = 54 \<or> unat c = 55 \<or> unat c = 56 \<or> unat c = 57
      \<or> unat c = 97 \<or> unat c = 98 \<or> unat c = 99 \<or> unat c = 100 \<or> unat c = 101 \<or> unat c = 102
      \<or> unat c = 65 \<or> unat c = 66 \<or> unat c = 67 \<or> unat c = 68 \<or> unat c = 69 \<or> unat c = 70"
    by arith
  then have "unat c \<in> {48, 49, 50, 51, 52, 53, 54, 55, 56, 57, 97, 98, 99, 100, 101, 102,
      65, 66, 67, 68, 69, 70}" by blast
  then have "word_of_nat (unat c) \<in> (word_of_nat ` {48, 49, 50, 51, 52, 53, 54, 55, 56, 57,
      97, 98, 99, 100, 101, 102, 65, 66, 67, 68, 69, 70} :: 16 word set)"
    by (rule imageI)
  then show "isHexDigit c" by (simp add: isHexDigit_def str_def ch_def)
next
  assume "isHexDigit c"
  then show "in_class [(ch CHR ''a'', ch CHR ''f''), (ch CHR ''A'', ch CHR ''F''),
             (ch CHR ''0'', ch CHR ''9'')] c"
    by (auto simp add: isHexDigit_def in_class_def str_def ch_def)
qed

lemma run_in_drop:
  "run_in rs s p k \<longleftrightarrow> p + k \<le> length s \<and> (\<forall>c\<in>set (take k (drop p s)). in_class rs c)" if "0 < k"
proof
  assume a: "run_in rs s p k"
  have "k - 1 < k" using that by simp
  then have "p + (k - 1) < length s" using a unfolding run_in_def by blast
  then have len: "p + k \<le> length s" using that by simp
  have "\<forall>c\<in>set (take k (drop p s)). in_class rs c"
  proof
    fix c assume "c \<in> set (take k (drop p s))"
    then obtain i where "i < length (take k (drop p s))" "take k (drop p s) ! i = c"
      by (meson in_set_conv_nth)
    then have "i < k" "c = s ! (p + i)" using len by simp_all
    then show "in_class rs c" using a unfolding run_in_def by blast
  qed
  with len show "p + k \<le> length s \<and> (\<forall>c\<in>set (take k (drop p s)). in_class rs c)" by simp
next
  assume a: "p + k \<le> length s \<and> (\<forall>c\<in>set (take k (drop p s)). in_class rs c)"
  show "run_in rs s p k"
    unfolding run_in_def
  proof (intro allI impI)
    fix i assume i: "i < k"
    then have lt: "p + i < length s" using a by simp
    with i have "take k (drop p s) ! i = s ! (p + i)" "i < length (take k (drop p s))"
      by simp_all
    then have "s ! (p + i) \<in> set (take k (drop p s))" by (metis nth_mem)
    then show "p + i < length s \<and> in_class rs (s ! (p + i))" using a lt by auto
  qed
qed

lemma set_ends_address_regex:
  "set (ends address_regex t [p]) =
     {q. p = 0 \<and> 1 < length t \<and> t ! 0 = ch CHR ''0'' \<and> t ! 1 = ch CHR ''x''
         \<and> run_in [(ch CHR ''a'', ch CHR ''f''), (ch CHR ''A'', ch CHR ''F''),
                    (ch CHR ''0'', ch CHR ''9'')] t 2 40 \<and> q = 42 \<and> length t = 42}"
  unfolding address_regex_def
  by (simp only: ends_Cat ends_Exactly set_ends_Eol set_funpow_Class set_ends_Lit set_ends_Bol)
     (auto simp: numeral_2_eq_2[symmetric])

lemma set_ends_OneOrMore_Class:
  "set (ends (OneOrMore (Class rs)) s ps) =
     {p + Suc k | p k. p \<in> set ps \<and> k \<le> length s \<and> run_in rs s p (Suc k)}"
proof -
  have "set (ends (OneOrMore (Class rs)) s ps) =
      (\<Union>k\<in>{0..<Suc (length s)}. set ((ends (Class rs) s ^^ Suc k) ps))"
    by (simp only: ends.simps set_concat set_map set_upt image_image)
  also have "\<dots> = (\<Union>k\<in>{0..<Suc (length s)}. {p + Suc k | p. p \<in> set ps \<and> run_in rs s p (Suc k)})"
    by (simp only: set_funpow_Class)
  also have "\<dots> = {p + Suc k | p k. p \<in> set ps \<and> k \<le> length s \<and> run_in rs s p (Suc k)}"
    by (fastforce simp: less_Suc_eq_le)
  finally show ?thesis .
qed

lemma set_ends_wei_regex:
  "set (ends wei_regex s [p]) =
     {q. p = 0 \<and> q = length s \<and> s \<noteq> [] \<and> run_in [(ch CHR ''0'', ch CHR ''9'')] s 0 (length s)}"
  unfolding wei_regex_def
  by (simp only: ends_Cat set_ends_Eol set_ends_OneOrMore_Class set_ends_Bol)
     (auto simp: neq_Nil_conv length_Suc_conv)

lemma regex_test_wei_regex: "regex_test wei_regex s \<longleftrightarrow> isDigitString s"
proof -
  have "regex_test wei_regex s \<longleftrightarrow> (\<exists>p\<le>length s. set (ends wei_regex s [p]) \<noteq> {})"
    by (simp only: regex_test_iff set_empty)
  also have "\<dots> \<longleftrightarrow> s \<noteq> [] \<and> run_in [(ch CHR ''0'', ch CHR ''9'')] s 0 (length s)"
    unfolding set_ends_wei_regex by auto
  also have "\<dots> \<longleftrightarrow> s \<noteq> [] \<and> (\<forall>c\<in>set s. in_class [(ch CHR ''0'', ch CHR ''9'')] c)"
    using run_in_drop[of "length s" "[(ch CHR ''0'', ch CHR ''9'')]" s 0] by auto
  also have "\<dots> \<longleftrightarrow> isDigitString s"
    by (simp only: decimal_class_iff isDigitString_def list_all_iff)
  finally show ?thesis .
qed

section \<open>The converter on digit strings\<close>

lemma decimal_digit_facts:
  assumes "isDecimalDigit c"
  shows "\<not> isWhiteSpace c" "digitValue c = Some (unat c - 48)" "unat c - 48 < 10"
    "c \<noteq> ch CHR ''x''" "c \<noteq> ch CHR ''X''" "c \<noteq> ch CHR ''o''" "c \<noteq> ch CHR ''O''"
    "c \<noteq> ch CHR ''b''" "c \<noteq> ch CHR ''B''" "c \<noteq> ch CHR ''+''" "c \<noteq> ch CHR ''-''"
    "c \<noteq> ch CHR ''.''"
  using assms
  by (auto simp: isDecimalDigit_def str_def ch_def isWhiteSpace_def digitValue_def)

lemma trim_id:
  assumes "s \<noteq> []" "\<not> isWhiteSpace (hd s)" "\<not> isWhiteSpace (last s)"
  shows "trim s = s"
proof -
  have "dropWhile isWhiteSpace s = s"
    using assms(2) by (simp add: dropWhile_eq_self_iff)
  moreover have "dropWhile isWhiteSpace (rev s) = rev s"
    using assms(1,3) by (simp add: dropWhile_eq_self_iff hd_rev)
  ultimately show ?thesis by (simp add: trim_def)
qed

lemma parseDigits_from_decimal:
  "list_all isDecimalDigit s \<Longrightarrow>
     parseDigits_from 10 acc s = Some (foldl (\<lambda>a c. 10 * a + (unat c - 48)) acc s)"
  by (induction s arbitrary: acc) (simp_all add: decimal_digit_facts mult.commute)

lemma StringToBigInt_digits:
  assumes "isDigitString s"
  shows "StringToBigInt s = Some (int (digits_value s))"
proof -
  from assms have ne: "s \<noteq> []" and all: "\<forall>c\<in>set s. isDecimalDigit c"
    by (simp_all add: isDigitString_def list_all_iff)
  have hd: "isDecimalDigit (hd s)" and last: "isDecimalDigit (last s)"
    using ne all by simp_all
  have t: "trim s = s"
    using ne hd last by (simp add: trim_id decimal_digit_facts)
  have snd: "2 \<le> length s \<Longrightarrow> isDecimalDigit (s ! 1)"
    using all by simp
  have np: "\<not> has_prefix s CHR ''x'' CHR ''X''" "\<not> has_prefix s CHR ''o'' CHR ''O''"
    "\<not> has_prefix s CHR ''b'' CHR ''B''"
    using snd decimal_digit_facts(4-9) unfolding has_prefix_def by blast+
  have sg: "hd s \<noteq> ch CHR ''+''" "hd s \<noteq> ch CHR ''-''"
    using hd decimal_digit_facts(10,11) by blast+
  have "parseDigits 10 s = Some (digits_value s)"
    using ne all by (simp add: parseDigits_def digits_value_def parseDigits_from_decimal list_all_iff)
  then show ?thesis
    using ne np sg by (simp add: StringToBigInt_def t)
qed

lemma BigInt_digits: "isDigitString s \<Longrightarrow> BigInt s = Inr (int (digits_value s))"
  by (simp add: BigInt_def StringToBigInt_digits)

lemma concat_replicate_single: "concat (replicate n [c]) = replicate n c"
  by (induction n) simp_all

lemma padStart_zero: "padStart w (str ''0'') s = replicate (w - length s) (ch CHR ''0'') @ s"
  by (simp add: padStart_def str_def concat_replicate_single Let_def)

lemma bigint_toString_nat: "bigint_toString (int n) = decimal n"
  by (simp add: bigint_toString_def)

lemma bigint_div_nat: "0 < b \<Longrightarrow> bigint_div (int a) (int b) = Inr (int (a div b))"
  by (cases "a = 0") (simp_all add: bigint_div_def signed_divide_int_def zdiv_int)

lemma bigint_rem_nat: "0 < b \<Longrightarrow> bigint_rem (int a) (int b) = Inr (int (a mod b))"
  by (cases "a = 0") (simp_all add: bigint_rem_def signed_modulo_int_def zmod_int)

lemma digitChar_facts:
  assumes "d < 10"
  shows "isDecimalDigit (digitChar d)" "unat (digitChar d) - 48 = d"
proof -
  from assms have cases: "d = 0 \<or> d = 1 \<or> d = 2 \<or> d = 3 \<or> d = 4 \<or> d = 5 \<or> d = 6 \<or> d = 7 \<or> d = 8 \<or> d = 9"
    by arith
  then show "isDecimalDigit (digitChar d)"
    by (auto simp: isDecimalDigit_def digitChar_def str_def ch_def)
  from cases show "unat (digitChar d) - 48 = d"
    by (auto simp: digitChar_def)
qed

lemma decimal_nonempty: "decimal n \<noteq> []"
  by (subst decimal.simps) simp

lemma decimal_digits: "list_all isDecimalDigit (decimal n)"
proof (induction n rule: decimal.induct)
  case (1 n)
  show ?case
  proof (cases "n < 10")
    case True
    then show ?thesis by (subst decimal.simps) (simp add: digitChar_facts)
  next
    case False
    then have "list_all isDecimalDigit (decimal (n div 10))" by (rule "1.IH")
    with False show ?thesis by (subst decimal.simps) (simp add: digitChar_facts)
  qed
qed

lemma digits_value_snoc: "digits_value (s @ [c]) = 10 * digits_value s + (unat c - 48)"
  by (simp add: digits_value_def)

lemma digits_value_decimal: "digits_value (decimal n) = n"
proof (induction n rule: decimal.induct)
  case (1 n)
  show ?case
  proof (cases "n < 10")
    case True
    then show ?thesis
      by (subst decimal.simps) (simp add: digits_value_def digitChar_facts)
  next
    case False
    then have "digits_value (decimal (n div 10)) = n div 10" by (rule "1.IH")
    with False show ?thesis
      by (subst decimal.simps) (simp add: digits_value_snoc digitChar_facts)
  qed
qed

lemma length_decimal: "n < 10 ^ Suc k \<Longrightarrow> length (decimal n) \<le> Suc k"
proof (induction k arbitrary: n)
  case 0
  then show ?case by (subst decimal.simps) simp
next
  case (Suc k)
  show ?case
  proof (cases "n < 10")
    case True
    then show ?thesis by (subst decimal.simps) simp
  next
    case False
    have "n div 10 < 10 ^ Suc k" using Suc.prems by (simp add: less_mult_imp_div_less)
    then have "length (decimal (n div 10)) \<le> Suc k" by (rule Suc.IH)
    with False show ?thesis by (subst decimal.simps) simp
  qed
qed

lemma weiToEtherFixed5_digits:
  assumes "isDigitString s"
  shows "weiToEtherFixed5 s =
    Inr (decimal (digits_value s div 10 ^ 18) @ str ''.''
         @ zero_padded 5 ((digits_value s mod 10 ^ 18) * 10 ^ 5 div 10 ^ 18))"
proof -
  have base: "bigint_pow 10 18 = Inr (int (10 ^ 18))" "bigint_pow 10 5 = Inr (int (10 ^ 5))"
    by (simp_all add: bigint_pow_def)
  have pos: "(0::nat) < 10 ^ 18" by simp
  have m: "int (digits_value s mod 10 ^ 18) * int (10 ^ 5) = int ((digits_value s mod 10 ^ 18) * 10 ^ 5)"
    by simp
  show ?thesis
    unfolding weiToEtherFixed5_def
    by (simp only: regex_test_wei_regex assms BigInt_digits base bind_err_def sum.case
        bigint_div_nat[OF pos] bigint_rem_nat[OF pos] m Let_def bigint_toString_nat
        padStart_zero zero_padded_def not_True_eq_False if_False)
qed

lemma weiToEtherFixed5_default:
  "\<not> isDigitString s \<Longrightarrow> weiToEtherFixed5 s = Inr (str ''0.00000'')"
  by (simp add: weiToEtherFixed5_def regex_test_wei_regex)


section \<open>The validator, characterised\<close>

lemma regex_test_address_regex:
  "regex_test address_regex t \<longleftrightarrow>
     (\<exists>h. t = str ''0x'' @ h \<and> length h = 40 \<and> list_all isHexDigit h)"
proof -
  let ?cls = "[(ch CHR ''a'', ch CHR ''f''), (ch CHR ''A'', ch CHR ''F''), (ch CHR ''0'', ch CHR ''9'')]"
  have "regex_test address_regex t \<longleftrightarrow> (\<exists>p\<le>length t. set (ends address_regex t [p]) \<noteq> {})"
    by (simp only: regex_test_iff set_empty)
  also have "\<dots> \<longleftrightarrow> length t = 42 \<and> t ! 0 = ch CHR ''0'' \<and> t ! 1 = ch CHR ''x'' \<and> run_in ?cls t 2 40"
    unfolding set_ends_address_regex by auto
  also have "\<dots> \<longleftrightarrow> length t = 42 \<and> t ! 0 = ch CHR ''0'' \<and> t ! 1 = ch CHR ''x''
        \<and> (\<forall>c\<in>set (take 40 (drop 2 t)). isHexDigit c)"
    using run_in_drop[of 40 ?cls t 2] by (auto simp only: hex_class_iff)
  also have "\<dots> \<longleftrightarrow> (\<exists>h. t = str ''0x'' @ h \<and> length h = 40 \<and> list_all isHexDigit h)"
  proof
    assume a: "length t = 42 \<and> t ! 0 = ch CHR ''0'' \<and> t ! 1 = ch CHR ''x''
        \<and> (\<forall>c\<in>set (take 40 (drop 2 t)). isHexDigit c)"
    then have "take 2 t = [t ! 0, t ! 1]"
      by (simp add: take_Suc_conv_app_nth numeral_2_eq_2)
    then have "take 2 t = str ''0x''" using a by (simp add: str_def)
    then have "t = str ''0x'' @ drop 2 t" by (metis append_take_drop_id)
    moreover have "length (drop 2 t) = 40" using a by simp
    moreover have "list_all isHexDigit (drop 2 t)" using a by (simp add: list_all_iff)
    ultimately show "\<exists>h. t = str ''0x'' @ h \<and> length h = 40 \<and> list_all isHexDigit h" by blast
  next
    assume "\<exists>h. t = str ''0x'' @ h \<and> length h = 40 \<and> list_all isHexDigit h"
    then obtain h where h: "t = str ''0x'' @ h" "length h = 40" "list_all isHexDigit h" by blast
    then show "length t = 42 \<and> t ! 0 = ch CHR ''0'' \<and> t ! 1 = ch CHR ''x''
        \<and> (\<forall>c\<in>set (take 40 (drop 2 t)). isHexDigit c)"
      by (simp add: str_def list_all_iff)
  qed
  finally show ?thesis .
qed

lemma trim_Nil: "trim [] = []"
  by (simp add: trim_def)

lemma isValidEthAddress_nonempty: "isValidEthAddress a \<Longrightarrow> a \<noteq> []"
  by (auto simp: isValidEthAddress_def regex_test_address_regex trim_Nil str_def)

lemma trim_strips:
  "\<exists>l r. s = l @ trim s @ r \<and> list_all isWhiteSpace l \<and> list_all isWhiteSpace r"
proof -
  let ?d = "dropWhile isWhiteSpace s"
  have "rev ?d = takeWhile isWhiteSpace (rev ?d) @ dropWhile isWhiteSpace (rev ?d)"
    by simp
  then have "rev (rev ?d) = rev (dropWhile isWhiteSpace (rev ?d)) @ rev (takeWhile isWhiteSpace (rev ?d))"
    by (metis rev_append)
  then have d: "?d = trim s @ rev (takeWhile isWhiteSpace (rev ?d))"
    by (simp add: trim_def)
  have "s = takeWhile isWhiteSpace s @ ?d" by simp
  then have "s = takeWhile isWhiteSpace s @ trim s @ rev (takeWhile isWhiteSpace (rev ?d))"
    using d by simp
  moreover have "list_all isWhiteSpace (takeWhile isWhiteSpace s)"
    by (simp add: list_all_iff) (meson set_takeWhileD)
  moreover have "list_all isWhiteSpace (rev (takeWhile isWhiteSpace (rev ?d)))"
    by (simp add: list_all_iff) (meson set_takeWhileD)
  ultimately show ?thesis by blast
qed

lemma trim_ends:
  assumes "trim s \<noteq> []"
  shows "\<not> isWhiteSpace (hd (trim s))" "\<not> isWhiteSpace (last (trim s))"
proof -
  let ?d = "dropWhile isWhiteSpace s"
  let ?e = "dropWhile isWhiteSpace (rev ?d)"
  have e: "?e \<noteq> []" using assms by (simp add: trim_def)
  then have "\<not> isWhiteSpace (hd ?e)" by (rule hd_dropWhile)
  then show "\<not> isWhiteSpace (last (trim s))"
    using e by (simp add: trim_def last_rev)
  have "?d \<noteq> []"
  proof
    assume a: "?d = []"
    have "?e = []" unfolding a by simp
    with e show False by blast
  qed
  then have nd: "\<not> isWhiteSpace (hd ?d)" by (rule hd_dropWhile)
  have "rev ?d = takeWhile isWhiteSpace (rev ?d) @ ?e" by simp
  then have "rev (rev ?d) = rev ?e @ rev (takeWhile isWhiteSpace (rev ?d))"
    by (metis rev_append)
  then have "?d = trim s @ rev (takeWhile isWhiteSpace (rev ?d))"
    by (simp add: trim_def)
  then have "hd ?d = hd (trim s)" using assms by (metis hd_append2)
  then show "\<not> isWhiteSpace (hd (trim s))" using nd by simp
qed

text \<open>
  C2: \<open>isValidEthAddress s\<close> is true exactly when \<open>s\<close>, with leading and trailing
  whitespace trimmed, is the two characters \<open>0x\<close> followed by exactly 40 characters from
  \<open>[0-9a-fA-F]\<close>. The validator is a total function of its argument alone; by
  \<open>trim_strips\<close> and \<open>trim_ends\<close> the trimmed string is \<open>s\<close> without its longest
  whitespace prefix and suffix.
\<close>

theorem isValidEthAddress_spec:
  "isValidEthAddress s \<longleftrightarrow>
     (\<exists>h. trim s = str ''0x'' @ h \<and> length h = 40 \<and> list_all isHexDigit h)"
  by (simp only: isValidEthAddress_def regex_test_address_regex)

theorem isValidEthAddress_spec_witness:
  "isValidEthAddress (str '' 0x52908400098527886E0F7030069857D2E4169EE7 '')"
proof -
  have "trim (str '' 0x52908400098527886E0F7030069857D2E4169EE7 '')
      = str ''0x'' @ str ''52908400098527886E0F7030069857D2E4169EE7''"
    by (simp add: trim_def str_def ch_def isWhiteSpace_def)
  moreover have "length (str ''52908400098527886E0F7030069857D2E4169EE7'') = 40"
    by (simp add: str_def)
  moreover have "list_all isHexDigit (str ''52908400098527886E0F7030069857D2E4169EE7'')"
    by (simp add: isHexDigit_def str_def ch_def)
  ultimately show ?thesis
    using isValidEthAddress_spec[of "str '' 0x52908400098527886E0F7030069857D2E4169EE7 ''"]
    by blast
qed

section \<open>The converter, characterised\<close>


lemma not_isDigitString_iff:
  "\<not> isDigitString s \<longleftrightarrow> s = [] \<or> (\<exists>c\<in>set s. \<not> isDecimalDigit c)"
  by (auto simp: isDigitString_def list_all_iff)

lemma digits_value_zeros: "digits_value (replicate k (ch CHR ''0'') @ d) = digits_value d"
proof -
  have "foldl (\<lambda>a c. 10 * a + (unat c - 48)) 0 (replicate k (ch CHR ''0'')) = 0"
    by (induction k) (simp_all add: ch_def)
  then show ?thesis by (simp add: digits_value_def)
qed

lemma scaled_bound: "(v mod 10 ^ 18) * 10 ^ 5 div 10 ^ 18 < (10::nat) ^ 5"
proof -
  have "v mod 10 ^ 18 < (10::nat) ^ 18" by simp
  then have "(v mod 10 ^ 18) * 10 ^ 5 < (10::nat) ^ 5 * 10 ^ 18" by simp
  then show ?thesis by (rule less_mult_imp_div_less)
qed

lemma zero_padded_facts:
  assumes "n < 10 ^ Suc k"
  shows "length (zero_padded (Suc k) n) = Suc k" "list_all isDecimalDigit (zero_padded (Suc k) n)"
    "digits_value (zero_padded (Suc k) n) = n"
proof -
  have "length (decimal n) \<le> Suc k" using assms by (rule length_decimal)
  then show "length (zero_padded (Suc k) n) = Suc k" by (simp add: zero_padded_def)
  have "isDecimalDigit (ch CHR ''0'')" by (simp add: isDecimalDigit_def str_def)
  then have "list_all isDecimalDigit (replicate (Suc k - length (decimal n)) (ch CHR ''0''))"
    by (simp add: list_all_iff)
  then show "list_all isDecimalDigit (zero_padded (Suc k) n)"
    using decimal_digits[of n] by (simp add: zero_padded_def)
  show "digits_value (zero_padded (Suc k) n) = n"
    by (simp only: zero_padded_def digits_value_zeros digits_value_decimal)
qed

lemma split_at_point:
  assumes "list_all isDecimalDigit w"
  shows "integer_part (w @ str ''.'' @ f) = w" "fraction_part (w @ str ''.'' @ f) = f"
proof -
  have nd: "\<And>c. c \<in> set w \<Longrightarrow> c \<noteq> ch CHR ''.''"
    using assms decimal_digit_facts(12) by (auto simp: list_all_iff)
  then show "integer_part (w @ str ''.'' @ f) = w"
    by (simp add: integer_part_def str_def)
  from nd show "fraction_part (w @ str ''.'' @ f) = f"
    by (simp add: fraction_part_def str_def)
qed

lemma floor_le_rat:
  fixes v :: nat
  shows "(of_nat (v div 10 ^ 18) :: rat) + of_nat ((v mod 10 ^ 18) * 10 ^ 5 div 10 ^ 18) / 10 ^ 5
         \<le> of_nat v / 10 ^ 18"
proof -
  let ?w = "v div 10 ^ 18" and ?r = "v mod 10 ^ 18"
  let ?f = "?r * 10 ^ 5 div 10 ^ 18"
  have "?f * 10 ^ 18 \<le> ?r * 10 ^ 5" by (rule div_times_less_eq_dividend)
  then have "(of_nat (?f * 10 ^ 18) :: rat) \<le> of_nat (?r * 10 ^ 5)" by (rule of_nat_mono)
  then have "(of_nat ?f :: rat) * 10 ^ 18 \<le> of_nat ?r * 10 ^ 5" by simp
  then have f: "(of_nat ?f :: rat) / 10 ^ 5 \<le> of_nat ?r / 10 ^ 18" by (simp add: field_simps)
  have "?w * 10 ^ 18 + ?r = v" by simp
  then have "(of_nat (?w * 10 ^ 18 + ?r) :: rat) = of_nat v" by (rule arg_cong)
  then have "(of_nat ?w :: rat) * 10 ^ 18 + of_nat ?r = of_nat v"
    by (simp only: of_nat_add of_nat_mult of_nat_power of_nat_numeral)
  then have "(of_nat v :: rat) / 10 ^ 18 = (of_nat ?w * 10 ^ 18 + of_nat ?r) / 10 ^ 18"
    by (rule arg_cong[OF sym])
  also have "\<dots> = of_nat ?w + of_nat ?r / 10 ^ 18"
    by (simp add: add_divide_distrib)
  finally have "(of_nat v :: rat) / 10 ^ 18 = of_nat ?w + of_nat ?r / 10 ^ 18" .
  with f show ?thesis by simp
qed

lemma weiToEtherFixed5_total: "\<exists>out. weiToEtherFixed5 s = Inr out"
  by (cases "isDigitString s") (simp_all add: weiToEtherFixed5_digits weiToEtherFixed5_default)


lemma decimal_numeral:
  "decimal (numeral k) =
     (if (numeral k :: nat) < 10 then [digitChar (numeral k)]
      else decimal (numeral k div 10) @ [digitChar (numeral k mod 10)])"
  by (rule decimal.simps)

lemma decimal_0: "decimal 0 = [digitChar 0]"
  by (subst decimal.simps) simp

lemma decimal_1: "decimal (Suc 0) = [digitChar 1]"
  by (subst decimal.simps) simp

lemma replicate_numeral_unfold: "replicate (numeral k) x = x # replicate (pred_numeral k) x"
  by (simp add: numeral_eq_Suc)

lemmas eval_string = str_def ch_def digitChar_def decimal_numeral decimal_0 decimal_1
  zero_padded_def replicate_numeral_unfold

lemma weiToEtherFixed5_one_ether:
  "weiToEtherFixed5 (str ''1000000000000000000'') = Inr (str ''1.00000'')"
proof -
  have d: "isDigitString (str ''1000000000000000000'')"
    by (simp add: isDigitString_def isDecimalDigit_def str_def ch_def)
  have v: "digits_value (str ''1000000000000000000'') = 1000000000000000000"
    by (simp add: digits_value_def str_def ch_def)
  have "decimal 1 @ str ''.'' @ zero_padded 5 0 = str ''1.00000''"
    by (simp add: eval_string)
  then show ?thesis
    by (simp add: weiToEtherFixed5_digits[OF d] v)
qed

text \<open>
  C1: on every string of decimal digits, read as the non-negative integer \<open>V\<close>,
  \<open>weiToEtherFixed5\<close> returns \<open>floor (V / 10^18)\<close> in base ten, a point, and
  \<open>floor ((V mod 10^18) * 10^5 / 10^18)\<close> padded with zeros to five digits. In particular
  \<open>0\<close> gives \<open>0.00000\<close>, \<open>10^18\<close> gives \<open>1.00000\<close>, \<open>10^18 - 1\<close> gives \<open>0.99999\<close> and
  \<open>1\<close> gives \<open>0.00000\<close>.
\<close>

theorem weiToEtherFixed5_format:
  "(\<forall>s. isDigitString s \<longrightarrow>
       weiToEtherFixed5 s =
         Inr (decimal (digits_value s div 10 ^ 18) @ str ''.''
              @ zero_padded 5 ((digits_value s mod 10 ^ 18) * 10 ^ 5 div 10 ^ 18)))
   \<and> weiToEtherFixed5 (str ''0'') = Inr (str ''0.00000'')
   \<and> weiToEtherFixed5 (str ''1000000000000000000'') = Inr (str ''1.00000'')
   \<and> weiToEtherFixed5 (str ''999999999999999999'') = Inr (str ''0.99999'')
   \<and> weiToEtherFixed5 (str ''1'') = Inr (str ''0.00000'')"
proof (intro conjI allI impI)
  fix s assume "isDigitString s"
  then show "weiToEtherFixed5 s =
         Inr (decimal (digits_value s div 10 ^ 18) @ str ''.''
              @ zero_padded 5 ((digits_value s mod 10 ^ 18) * 10 ^ 5 div 10 ^ 18))"
    by (rule weiToEtherFixed5_digits)
next
  have d: "isDigitString (str ''0'')"
    by (simp add: isDigitString_def isDecimalDigit_def str_def ch_def)
  have v: "digits_value (str ''0'') = 0"
    by (simp add: digits_value_def str_def ch_def)
  have "decimal 0 @ str ''.'' @ zero_padded 5 0 = str ''0.00000''"
    by (simp add: eval_string)
  then show "weiToEtherFixed5 (str ''0'') = Inr (str ''0.00000'')"
    by (simp add: weiToEtherFixed5_digits[OF d] v)
next
  show "weiToEtherFixed5 (str ''1000000000000000000'') = Inr (str ''1.00000'')"
    by (rule weiToEtherFixed5_one_ether)
next
  have d: "isDigitString (str ''999999999999999999'')"
    by (simp add: isDigitString_def isDecimalDigit_def str_def ch_def)
  have v: "digits_value (str ''999999999999999999'') = 999999999999999999"
    by (simp add: digits_value_def str_def ch_def)
  have "decimal 0 @ str ''.'' @ zero_padded 5 99999 = str ''0.99999''"
    by (simp add: eval_string)
  then show "weiToEtherFixed5 (str ''999999999999999999'') = Inr (str ''0.99999'')"
    by (simp add: weiToEtherFixed5_digits[OF d] v)
next
  have d: "isDigitString (str ''1'')"
    by (simp add: isDigitString_def isDecimalDigit_def str_def ch_def)
  have v: "digits_value (str ''1'') = 1"
    by (simp add: digits_value_def str_def ch_def)
  have "decimal 0 @ str ''.'' @ zero_padded 5 0 = str ''0.00000''"
    by (simp add: eval_string)
  then show "weiToEtherFixed5 (str ''1'') = Inr (str ''0.00000'')"
    by (simp add: weiToEtherFixed5_digits[OF d] v)
qed

theorem weiToEtherFixed5_format_witness:
  "isDigitString (str ''2500000000000000000'')
   \<and> weiToEtherFixed5 (str ''2500000000000000000'') = Inr (str ''2.50000'')"
proof -
  have d: "isDigitString (str ''2500000000000000000'')"
    by (simp add: isDigitString_def isDecimalDigit_def str_def ch_def)
  have v: "digits_value (str ''2500000000000000000'') = 2500000000000000000"
    by (simp add: digits_value_def str_def ch_def)
  have e: "decimal 2 @ str ''.'' @ zero_padded 5 50000 = str ''2.50000''"
    by (simp add: eval_string)
  from weiToEtherFixed5_format d
  have "weiToEtherFixed5 (str ''2500000000000000000'') =
         Inr (decimal (digits_value (str ''2500000000000000000'') div 10 ^ 18) @ str ''.''
              @ zero_padded 5 ((digits_value (str ''2500000000000000000'') mod 10 ^ 18) * 10 ^ 5 div 10 ^ 18))"
    by blast
  then have "weiToEtherFixed5 (str ''2500000000000000000'') = Inr (str ''2.50000'')"
    using e by (simp add: v)
  with d show ?thesis by simp
qed


text \<open>
  C3: on every string that does not match \<^verbatim>\<open>^\d+$\<close>, that is the empty string and every
  string with a character that is not a decimal digit, \<open>weiToEtherFixed5\<close> returns
  \<open>0.00000\<close> and throws nothing.
\<close>

theorem weiToEtherFixed5_malformed:
  "s = [] \<or> (\<exists>c\<in>set s. \<not> isDecimalDigit c) \<Longrightarrow> weiToEtherFixed5 s = Inr (str ''0.00000'')"
  by (simp only: weiToEtherFixed5_default not_isDigitString_iff)

theorem weiToEtherFixed5_malformed_witness:
  "(\<exists>c\<in>set (str ''12a''). \<not> isDecimalDigit c)
   \<and> weiToEtherFixed5 (str ''12a'') = Inr (str ''0.00000'')
   \<and> weiToEtherFixed5 [] = Inr (str ''0.00000'')"
proof -
  have a: "\<exists>c\<in>set (str ''12a''). \<not> isDecimalDigit c"
    by (simp add: isDecimalDigit_def str_def ch_def)
  then have "weiToEtherFixed5 (str ''12a'') = Inr (str ''0.00000'')"
    using weiToEtherFixed5_malformed[of "str ''12a''"] by blast
  moreover have "weiToEtherFixed5 [] = Inr (str ''0.00000'')"
    using weiToEtherFixed5_malformed[of "[]"] by blast
  ultimately show ?thesis using a by blast
qed

text \<open>
  C4: on every string of decimal digits the output of \<open>weiToEtherFixed5\<close> is a digit
  string, a point and exactly five digits, and read as a rational number it is at most
  the true balance \<open>V / 10^18\<close>: the fraction is truncated, never rounded up.
\<close>

theorem weiToEtherFixed5_truncates:
  "isDigitString s \<Longrightarrow>
     \<exists>out. weiToEtherFixed5 s = Inr out
       \<and> out = integer_part out @ str ''.'' @ fraction_part out
       \<and> isDigitString (integer_part out)
       \<and> length (fraction_part out) = 5
       \<and> list_all isDecimalDigit (fraction_part out)
       \<and> decimal_rat out \<le> of_nat (digits_value s) / 10 ^ 18"
proof -
  assume d: "isDigitString s"
  let ?v = "digits_value s"
  let ?w = "decimal (?v div 10 ^ 18)"
  let ?n = "(?v mod 10 ^ 18) * 10 ^ 5 div 10 ^ 18"
  let ?f = "zero_padded 5 ?n"
  let ?out = "?w @ str ''.'' @ ?f"
  have n: "?n < 10 ^ Suc 4" using scaled_bound[of ?v] by simp
  have f: "length ?f = 5" "list_all isDecimalDigit ?f" "digits_value ?f = ?n"
    using zero_padded_facts[OF n] by simp_all
  have w: "isDigitString ?w" "digits_value ?w = ?v div 10 ^ 18"
    by (simp_all add: isDigitString_def decimal_nonempty decimal_digits digits_value_decimal)
  have ip: "integer_part ?out = ?w" and fp: "fraction_part ?out = ?f"
    by (rule split_at_point, rule decimal_digits)+
  have "decimal_rat ?out = of_nat (?v div 10 ^ 18) + of_nat ?n / 10 ^ 5"
    by (simp only: decimal_rat_def ip fp f w)
  then have le: "decimal_rat ?out \<le> of_nat ?v / 10 ^ 18"
    using floor_le_rat[of ?v] by simp
  have "weiToEtherFixed5 s = Inr ?out" using d by (rule weiToEtherFixed5_digits)
  moreover have "?out = integer_part ?out @ str ''.'' @ fraction_part ?out"
    by (simp only: ip fp)
  moreover have "isDigitString (integer_part ?out)" by (simp only: ip w)
  moreover have "length (fraction_part ?out) = 5" by (simp only: fp f)
  moreover have "list_all isDecimalDigit (fraction_part ?out)" by (simp only: fp f)
  ultimately show ?thesis using le by blast
qed

theorem weiToEtherFixed5_truncates_witness:
  "isDigitString (str ''1999999999999999999'')
   \<and> (\<exists>out. weiToEtherFixed5 (str ''1999999999999999999'') = Inr out
       \<and> out = integer_part out @ str ''.'' @ fraction_part out
       \<and> isDigitString (integer_part out)
       \<and> length (fraction_part out) = 5
       \<and> list_all isDecimalDigit (fraction_part out)
       \<and> decimal_rat out \<le> of_nat (digits_value (str ''1999999999999999999'')) / 10 ^ 18)"
proof -
  have d: "isDigitString (str ''1999999999999999999'')"
    by (simp add: isDigitString_def isDecimalDigit_def str_def ch_def)
  then show ?thesis
    using weiToEtherFixed5_truncates[of "str ''1999999999999999999''"] by blast
qed

section \<open>The request handler, characterised\<close>

lemma typeof_string_iff: "typeof v = str ''string'' \<longleftrightarrow> (\<exists>a. v = JString a)"
  by (cases v) (simp_all add: str_def ch_def)

lemma handler_body_throws:
  "POST (Inl e) apiKey fetch = unexpected_500"
  by (simp add: POST_def POST_try_def bind_err_def)

lemma handler_not_string:
  assumes "\<forall>a. map_of kvs (str ''address'') \<noteq> Some (JString a)"
  shows "POST (Inr (JObject kvs)) apiKey fetch = missing_address_400"
proof -
  let ?v = "case map_of kvs (str ''address'') of None \<Rightarrow> JUndefined | Some v \<Rightarrow> v"
  have "\<not> (\<exists>a. ?v = JString a)"
    using assms by (auto split: option.splits)
  then have "typeof ?v \<noteq> str ''string''" by (simp only: typeof_string_iff not_False_eq_True)
  then show ?thesis
    by (simp add: POST_def POST_try_def bind_err_def)
qed

lemma handler_empty_string:
  assumes "map_of kvs (str ''address'') = Some (JString [])"
  shows "POST (Inr (JObject kvs)) apiKey fetch = missing_address_400"
  using assms by (simp add: POST_def POST_try_def bind_err_def)

lemma handler_invalid_format:
  assumes "map_of kvs (str ''address'') = Some (JString a)" "a \<noteq> []" "\<not> isValidEthAddress a"
  shows "POST (Inr (JObject kvs)) apiKey fetch = invalid_format_400"
  using assms by (simp add: POST_def POST_try_def bind_err_def)

lemma handler_upstream:
  assumes "map_of kvs (str ''address'') = Some (JString a)" "isValidEthAddress a"
    and "apiKey = Some k" "k \<noteq> []"
    and "fetch (balance_url a k) = Inr res" "ok res" "res_json res = Inr data"
  shows "POST (Inr (JObject kvs)) apiKey fetch =
     (if status data \<noteq> Some (str ''1'') \<or> \<not> truthy (result data) then
        Response_json
          (ErrorBody (if truthy (message data) then ToString (message data)
                      else generic_failure))
          502
      else
        (case weiToEtherFixed5 (ToString (result data)) of
           Inr balanceEther \<Rightarrow> Response_json (BalanceBody balanceEther) 200
         | Inl e \<Rightarrow> unexpected_500))"
proof -
  have ne: "a \<noteq> []" using assms(2) by (rule isValidEthAddress_nonempty)
  have t: "truthy apiKey" "ToString apiKey = k" using assms(3,4) by (simp_all add: truthy_def ToString_def)
  show ?thesis
    by (simp add: POST_def POST_try_def bind_err_def assms(1,2,5,6,7) ne t typeof_string_iff
        split: sum.splits)
qed

lemma sample_address_valid:
  "isValidEthAddress sample_address"
proof -
  have "trim sample_address = str ''0x'' @ str ''52908400098527886E0F7030069857D2E4169EE7''"
    by (simp add: trim_def str_def ch_def isWhiteSpace_def)
  moreover have "length (str ''52908400098527886E0F7030069857D2E4169EE7'') = 40"
    by (simp add: str_def)
  moreover have "list_all isHexDigit (str ''52908400098527886E0F7030069857D2E4169EE7'')"
    by (simp add: isHexDigit_def str_def ch_def)
  ultimately show ?thesis
    unfolding isValidEthAddress_def regex_test_address_regex by blast
qed

lemma sample_address_invalid: "\<not> isValidEthAddress (str ''not-an-address'')"
proof -
  have "trim (str ''not-an-address'') = str ''not-an-address''"
    by (simp add: trim_def str_def ch_def isWhiteSpace_def)
  moreover have "\<not> (\<exists>h. str ''not-an-address'' = str ''0x'' @ h \<and> length h = 40 \<and> list_all isHexDigit h)"
    by (simp add: str_def ch_def)
  ultimately show ?thesis
    unfolding isValidEthAddress_def regex_test_address_regex by simp
qed

lemma empty_address_invalid: "\<not> isValidEthAddress []"
  using isValidEthAddress_nonempty by blast

lemma messages_differ:
  "missing_address_400 \<noteq> invalid_format_400"
  "unexpected_500 \<noteq> missing_address_400"
  by (simp_all add: Response_json_def str_def ch_def)

text \<open>
  C5, as amended: when the body parses to an object whose \<open>address\<close> field is missing or
  is not a string, the handler answers 400 with \<open>Missing 'address' in request body.\<close>;
  when the body is absent or cannot be parsed, \<open>req.json()\<close> throws and the handler
  answers 500 with \<open>Unexpected server error.\<close>
\<close>

theorem POST_missing_address:
  "((\<forall>a. map_of kvs (str ''address'') \<noteq> Some (JString a)) \<longrightarrow>
      POST (Inr (JObject kvs)) apiKey fetch = missing_address_400)
   \<and> POST (Inl e) apiKey fetch = unexpected_500"
proof (intro conjI impI)
  assume "\<forall>a. map_of kvs (str ''address'') \<noteq> Some (JString a)"
  then show "POST (Inr (JObject kvs)) apiKey fetch = missing_address_400"
    by (rule handler_not_string)
next
  show "POST (Inl e) apiKey fetch = unexpected_500"
    by (rule handler_body_throws)
qed

theorem POST_missing_address_witness:
  "(\<forall>a. map_of [(str ''address'', JBoolean True)] (str ''address'') \<noteq> Some (JString a))
   \<and> POST (Inr (JObject [(str ''address'', JBoolean True)])) None fetch_throws = missing_address_400
   \<and> (\<forall>a. map_of [] (str ''address'') \<noteq> Some (JString a))
   \<and> POST (Inr (JObject [])) None fetch_throws = missing_address_400"
proof -
  have a: "\<forall>a. map_of [(str ''address'', JBoolean True)] (str ''address'') \<noteq> Some (JString a)"
    by simp
  have b: "\<forall>a. map_of ([] :: (jsstring \<times> jsvalue) list) (str ''address'') \<noteq> Some (JString a)"
    by simp
  from a POST_missing_address[of "[(str ''address'', JBoolean True)]" None fetch_throws]
  have "POST (Inr (JObject [(str ''address'', JBoolean True)])) None fetch_throws = missing_address_400"
    by blast
  moreover from b POST_missing_address[of "[]" None fetch_throws]
  have "POST (Inr (JObject [])) None fetch_throws = missing_address_400"
    by blast
  ultimately show ?thesis using a b by blast
qed

text \<open>
  C5 as stated fails: a body that cannot be parsed gets 500 and \<open>Unexpected server error.\<close>,
  not 400.
\<close>

theorem POST_unparseable_body_counterexample:
  "POST (Inl SyntaxError) (Some (str ''key'')) fetch_throws = unexpected_500
   \<and> POST (Inl SyntaxError) (Some (str ''key'')) fetch_throws \<noteq> missing_address_400"
  by (simp only: handler_body_throws messages_differ simp_thms)

text \<open>
  C6, as amended: when the \<open>address\<close> field is a non-empty string that fails the
  validator, the handler answers 400 with \<open>Invalid Ethereum address format.\<close>
\<close>

theorem POST_invalid_address:
  "map_of kvs (str ''address'') = Some (JString a) \<Longrightarrow> a \<noteq> [] \<Longrightarrow> \<not> isValidEthAddress a \<Longrightarrow>
     POST (Inr (JObject kvs)) apiKey fetch = invalid_format_400"
  by (rule handler_invalid_format)

theorem POST_invalid_address_witness:
  "map_of [(str ''address'', JString (str ''not-an-address''))] (str ''address'')
     = Some (JString (str ''not-an-address''))
   \<and> str ''not-an-address'' \<noteq> []
   \<and> \<not> isValidEthAddress (str ''not-an-address'')
   \<and> POST (Inr (JObject [(str ''address'', JString (str ''not-an-address''))])) None fetch_throws
       = invalid_format_400"
proof -
  have a: "map_of [(str ''address'', JString (str ''not-an-address''))] (str ''address'')
     = Some (JString (str ''not-an-address''))" by simp
  have b: "str ''not-an-address'' \<noteq> []" by (simp add: str_def)
  show ?thesis
    using a b sample_address_invalid POST_invalid_address[OF a b sample_address_invalid] by blast
qed

text \<open>
  C6 as stated fails on the empty string: it is a string and fails the validator, and the
  handler answers with the missing-field message.
\<close>

theorem POST_blank_address_counterexample:
  "\<not> isValidEthAddress []
   \<and> POST (Inr (JObject [(str ''address'', JString [])])) (Some (str ''key'')) fetch_throws
       \<noteq> invalid_format_400"
proof -
  have "POST (Inr (JObject [(str ''address'', JString [])])) (Some (str ''key'')) fetch_throws
       = missing_address_400"
    by (rule handler_empty_string) simp
  then show ?thesis using empty_address_invalid messages_differ(1) by simp
qed

text \<open>
  C9: when the \<open>address\<close> field is the empty string, the handler answers 400 with the
  missing-field message, not with the invalid-format message.
\<close>

theorem POST_empty_address:
  "map_of kvs (str ''address'') = Some (JString []) \<Longrightarrow>
     POST (Inr (JObject kvs)) apiKey fetch = missing_address_400
     \<and> POST (Inr (JObject kvs)) apiKey fetch \<noteq> invalid_format_400"
  by (simp only: handler_empty_string messages_differ simp_thms)

theorem POST_empty_address_witness:
  "map_of [(str ''address'', JString [])] (str ''address'') = Some (JString [])
   \<and> POST (Inr (JObject [(str ''address'', JString [])])) None fetch_throws = missing_address_400"
proof -
  have a: "map_of [(str ''address'', JString [])] (str ''address'') = Some (JString [])" by simp
  show ?thesis using a POST_empty_address[OF a] by blast
qed

text \<open>
  C7: when the request reaches the upstream call, the transport status is a success and
  the envelope's status is not \<open>1\<close> or its result is missing, the handler answers 502
  with the envelope's message, or with \<open>Failed to retrieve balance from Etherscan.\<close>
  when the envelope has no message (an absent or an empty one).
\<close>

theorem POST_upstream_rejected:
  "map_of kvs (str ''address'') = Some (JString a) \<Longrightarrow> isValidEthAddress a \<Longrightarrow>
   apiKey = Some k \<Longrightarrow> k \<noteq> [] \<Longrightarrow>
   fetch (balance_url a k) = Inr res \<Longrightarrow> 200 \<le> res_status res \<and> res_status res \<le> 299 \<Longrightarrow>
   res_json res = Inr data \<Longrightarrow>
   status data \<noteq> Some (str ''1'') \<or> result data = None \<Longrightarrow>
     POST (Inr (JObject kvs)) apiKey fetch =
       Response_json
         (ErrorBody (case message data of
                       None \<Rightarrow> generic_failure
                     | Some m \<Rightarrow> if m = [] then generic_failure else m))
         502"
proof -
  assume h: "map_of kvs (str ''address'') = Some (JString a)" "isValidEthAddress a"
    "apiKey = Some k" "k \<noteq> []" "fetch (balance_url a k) = Inr res"
    "res_json res = Inr data"
    and okr: "200 \<le> res_status res \<and> res_status res \<le> 299"
    and rej: "status data \<noteq> Some (str ''1'') \<or> result data = None"
  from okr have "ok res" by (simp add: ok_def)
  note handler_upstream[where fetch = fetch and data = data, OF h(1-5) this h(6)]
  moreover have "status data \<noteq> Some (str ''1'') \<or> \<not> truthy (result data)"
    using rej by (auto simp: truthy_def)
  ultimately show ?thesis
    by (simp add: truthy_def ToString_def split: option.splits)
qed

theorem POST_upstream_rejected_witness:
  "isValidEthAddress sample_address
   \<and> POST sample_request (Some (str ''key''))
        (fetch_returns (upstream_200 envelope_notok))
      = Response_json (ErrorBody (str ''NOTOK'')) 502"
proof -
  let ?res = "upstream_200 envelope_notok"
  have "POST sample_request (Some (str ''key'')) (fetch_returns ?res) =
       Response_json
         (ErrorBody (case message envelope_notok of
                       None \<Rightarrow> generic_failure
                     | Some m \<Rightarrow> if m = [] then generic_failure else m))
         502"
    by (rule POST_upstream_rejected[where a = sample_address and k = "str ''key''" and res = ?res])
       (simp_all add: sample_address_valid fetch_returns_def, simp_all add: str_def ch_def)
  then show ?thesis using sample_address_valid by (simp add: str_def)
qed

text \<open>
  C8, as amended: with a valid address, a non-empty credential, a success transport
  status and an envelope whose status is \<open>1\<close> and whose result is a non-empty string, the
  handler answers 200 with \<open>balanceEther\<close> the converter's output on the result; the result
  \<open>1000000000000000000\<close> gives \<open>1.00000\<close>.
\<close>

theorem POST_success:
  "map_of kvs (str ''address'') = Some (JString a) \<Longrightarrow> isValidEthAddress a \<Longrightarrow>
   apiKey = Some k \<Longrightarrow> k \<noteq> [] \<Longrightarrow>
   fetch (balance_url a k) = Inr res \<Longrightarrow> 200 \<le> res_status res \<and> res_status res \<le> 299 \<Longrightarrow>
   res_json res = Inr data \<Longrightarrow>
   status data = Some (str ''1'') \<Longrightarrow> result data = Some r \<Longrightarrow> r \<noteq> [] \<Longrightarrow>
     \<exists>balanceEther. weiToEtherFixed5 r = Inr balanceEther
       \<and> POST (Inr (JObject kvs)) apiKey fetch = Response_json (BalanceBody balanceEther) 200"
proof -
  assume h: "map_of kvs (str ''address'') = Some (JString a)" "isValidEthAddress a"
    "apiKey = Some k" "k \<noteq> []" "fetch (balance_url a k) = Inr res"
    "res_json res = Inr data"
    and okr: "200 \<le> res_status res \<and> res_status res \<le> 299"
    and acc: "status data = Some (str ''1'')" "result data = Some r" "r \<noteq> []"
  from okr have "ok res" by (simp add: ok_def)
  note p = handler_upstream[where fetch = fetch and data = data, OF h(1-5) this h(6)]
  obtain b where b: "weiToEtherFixed5 r = Inr b" using weiToEtherFixed5_total by blast
  have "POST (Inr (JObject kvs)) apiKey fetch = Response_json (BalanceBody b) 200"
    using p acc b by (simp add: truthy_def ToString_def)
  with b show ?thesis by blast
qed

theorem POST_success_witness:
  "isValidEthAddress sample_address
   \<and> POST sample_request (Some (str ''key''))
        (fetch_returns (upstream_200 envelope_one_ether))
      = Response_json (BalanceBody (str ''1.00000'')) 200"
proof -
  let ?res = "upstream_200 envelope_one_ether"
  have "\<exists>b. weiToEtherFixed5 (str ''1000000000000000000'') = Inr b
       \<and> POST sample_request (Some (str ''key'')) (fetch_returns ?res) = Response_json (BalanceBody b) 200"
    by (rule POST_success[where a = sample_address and k = "str ''key''" and res = ?res
          and data = envelope_one_ether])
       (simp_all add: sample_address_valid fetch_returns_def, simp_all add: str_def ch_def)
  then show ?thesis using sample_address_valid weiToEtherFixed5_one_ether by auto
qed

text \<open>
  C8 as stated fails when the result is present and empty: the handler answers 502, not
  200 with the converter's \<open>0.00000\<close>.
\<close>

theorem POST_blank_result_counterexample:
  "isValidEthAddress sample_address
   \<and> weiToEtherFixed5 [] = Inr (str ''0.00000'')
   \<and> resp_status (POST sample_request (Some (str ''key''))
        (fetch_returns (upstream_200 envelope_blank_result))) = 502"
proof -
  let ?res = "upstream_200 envelope_blank_result"
  have "ok ?res" by (simp add: ok_def)
  then have "POST sample_request (Some (str ''key'')) (fetch_returns ?res) =
      Response_json (ErrorBody generic_failure) 502"
    by (subst handler_upstream[where a = sample_address and k = "str ''key''" and res = ?res
          and data = envelope_blank_result])
       (simp_all add: sample_address_valid fetch_returns_def truthy_def, simp_all add: str_def ch_def)
  then show ?thesis
    using sample_address_valid weiToEtherFixed5_default[of "[]"]
    by (simp add: Response_json_def isDigitString_def)
qed

text \<open>
  C10: when the envelope's status is \<open>1\<close> and its result is the empty string, the handler
  answers 502 with the envelope's message or the generic failure string; it does not
  convert the empty string, which the converter would render as \<open>0.00000\<close>.
\<close>

theorem POST_empty_result:
  "map_of kvs (str ''address'') = Some (JString a) \<Longrightarrow> isValidEthAddress a \<Longrightarrow>
   apiKey = Some k \<Longrightarrow> k \<noteq> [] \<Longrightarrow>
   fetch (balance_url a k) = Inr res \<Longrightarrow> 200 \<le> res_status res \<and> res_status res \<le> 299 \<Longrightarrow>
   res_json res = Inr data \<Longrightarrow>
   status data = Some (str ''1'') \<Longrightarrow> result data = Some [] \<Longrightarrow>
     POST (Inr (JObject kvs)) apiKey fetch =
       Response_json
         (ErrorBody (case message data of
                       None \<Rightarrow> generic_failure
                     | Some m \<Rightarrow> if m = [] then generic_failure else m))
         502
     \<and> weiToEtherFixed5 [] = Inr (str ''0.00000'')"
proof -
  assume h: "map_of kvs (str ''address'') = Some (JString a)" "isValidEthAddress a"
    "apiKey = Some k" "k \<noteq> []" "fetch (balance_url a k) = Inr res"
    "res_json res = Inr data"
    and okr: "200 \<le> res_status res \<and> res_status res \<le> 299"
    and emp: "status data = Some (str ''1'')" "result data = Some []"
  from okr have "ok res" by (simp add: ok_def)
  note p = handler_upstream[where fetch = fetch and data = data, OF h(1-5) this h(6)]
  have "weiToEtherFixed5 [] = Inr (str ''0.00000'')"
    by (rule weiToEtherFixed5_default) (simp add: isDigitString_def)
  then show ?thesis
    using p emp by (simp add: truthy_def ToString_def split: option.splits)
qed

theorem POST_empty_result_witness:
  "isValidEthAddress sample_address
   \<and> POST sample_request (Some (str ''key''))
        (fetch_returns (upstream_200 envelope_blank_result_ok))
      = Response_json (ErrorBody (str ''OK'')) 502"
proof -
  let ?res = "upstream_200 envelope_blank_result_ok"
  have "POST sample_request (Some (str ''key'')) (fetch_returns ?res) =
       Response_json
         (ErrorBody (case message envelope_blank_result_ok of
                       None \<Rightarrow> generic_failure
                     | Some m \<Rightarrow> if m = [] then generic_failure else m))
         502
     \<and> weiToEtherFixed5 [] = Inr (str ''0.00000'')"
    by (rule POST_empty_result[where a = sample_address and k = "str ''key''" and res = ?res])
       (simp_all add: sample_address_valid fetch_returns_def, simp_all add: str_def ch_def)
  then show ?thesis using sample_address_valid by (simp add: str_def)
qed

end
